theory Spec2Isabelle
  imports Main "HOL-Library.Word"
begin

section \<open>Values of the host language\<close>

text \<open>
  A JavaScript string is a sequence of UTF-16 code units. The messages of the
  application are Cyrillic, so strings are lists of 16-bit words rather than lists of
  8-bit characters.
\<close>

type_synonym jsstring = "16 word list"

definition ascii :: "string \<Rightarrow> jsstring" where
  "ascii s = map of_char s"

text \<open>
  The values an \<open>unknown\<close> can hold at run time. \<open>JError name message\<close> is an instance
  of \<open>Error\<close> (or of a subclass such as \<open>TypeError\<close>); \<open>JObject\<close> is a plain object
  with its own properties in order; \<open>JBoxed p\<close> is the wrapper object around the
  primitive \<open>p\<close>, as \<open>Object('x')\<close> makes it; \<open>JFunction n\<close> is a function object,
  named by its identity \<open>n\<close>. The payload of a number plays no role in the functions
  below.
\<close>

datatype jsval =
    JUndefined
  | JNull
  | JBool bool
  | JNumber int
  | JString jsstring
  | JError jsstring jsstring
  | JArray "jsval list"
  | JObject "(jsstring \<times> jsval) list"
  | JBoxed jsval
  | JFunction nat


text \<open>
  What calling a function object with one argument does: the value it returns, or
  \<open>None\<close> when the call throws. The table is the run time's; the functions below take
  it as a parameter.
\<close>

type_synonym closures = "nat \<Rightarrow> jsval \<Rightarrow> jsval option"

text \<open>
  \<open>String.prototype.trim\<close> removes leading and trailing white space and line
  terminators: TAB, LF, VT, FF, CR, SP, NBSP, the space separators U+1680,
  U+2000..U+200A, U+202F, U+205F, U+3000, the separators U+2028 and U+2029, and the
  byte order mark U+FEFF. All of them are single code units.
\<close>

definition isWhiteSpace :: "16 word \<Rightarrow> bool" where
  "isWhiteSpace c \<longleftrightarrow>
     c = 0x0009 \<or> c = 0x000A \<or> c = 0x000B \<or> c = 0x000C \<or> c = 0x000D \<or> c = 0x0020 \<or>
     c = 0x00A0 \<or> c = 0x1680 \<or> (0x2000 \<le> c \<and> c \<le> 0x200A) \<or> c = 0x2028 \<or>
     c = 0x2029 \<or> c = 0x202F \<or> c = 0x205F \<or> c = 0x3000 \<or> c = 0xFEFF"

definition trim :: "jsstring \<Rightarrow> jsstring" where
  "trim s = rev (dropWhile isWhiteSpace (rev (dropWhile isWhiteSpace s)))"


section \<open>The HTTP access layer\<close>

text \<open>
  What the run time decides and the repository does not: the message of the
  \<open>TypeError\<close> raised by reading a property of \<open>null\<close> or \<open>undefined\<close>, and the
  conversion \<open>ToString\<close> of a value that is not a string.
\<close>

record engine =
  nullishAccessMessage :: "jsval \<Rightarrow> jsstring"
  toString :: "jsval \<Rightarrow> jsstring"

text \<open>
  A \<open>Response\<close> as far as \<open>requestExecutor\<close> looks at it: the flag \<open>ok\<close> (status in
  the range 200..299) and the outcome of \<open>response.json()\<close>, which rejects (\<open>Inl\<close>)
  when the body is not JSON and resolves (\<open>Inr\<close>) to the parsed value otherwise.
\<close>

record response =
  ok :: bool
  json :: "jsval + jsval"

text \<open>The property read \<open>data.message\<close>; \<open>Inl\<close> is the value thrown.\<close>

fun get_message :: "engine \<Rightarrow> jsval \<Rightarrow> jsval + jsval" where
  "get_message eng JUndefined = Inl (JError (ascii ''TypeError'') (nullishAccessMessage eng JUndefined))"
| "get_message eng JNull = Inl (JError (ascii ''TypeError'') (nullishAccessMessage eng JNull))"
| "get_message eng (JObject props) =
     (case map_of props (ascii ''message'') of None \<Rightarrow> Inr JUndefined | Some v \<Rightarrow> Inr v)"
| "get_message eng (JError name msg) = Inr (JString msg)"
| "get_message eng v = Inr JUndefined"

text \<open>\<open>new Error(message)\<close>: an undefined argument leaves the message empty.\<close>

fun new_Error :: "engine \<Rightarrow> jsval \<Rightarrow> jsval" where
  "new_Error eng JUndefined = JError (ascii ''Error'') []"
| "new_Error eng (JString s) = JError (ascii ''Error'') s"
| "new_Error eng v = JError (ascii ''Error'') (toString eng v)"

text \<open>
  \<open>requestExecutor\<close>, given how \<open>fetch\<close> settled: \<open>Inl\<close> is a rejection (the promise
  returned by the executor rejects with that value), \<open>Inr\<close> a response.
\<close>

definition requestExecutor :: "engine \<Rightarrow> jsval + response \<Rightarrow> jsval + jsval" where
  "requestExecutor eng fetched =
     (case fetched of
        Inl e \<Rightarrow> Inl e
      | Inr response \<Rightarrow>
          (case json response of
             Inl e \<Rightarrow> Inl e
           | Inr data \<Rightarrow>
               if \<not> ok response then
                 (case get_message eng data of
                    Inl e \<Rightarrow> Inl e
                  | Inr m \<Rightarrow> Inl (new_Error eng m))
               else Inr data))"


section \<open>The request hook\<close>

text \<open>
  The three state cells of \<open>useRequest\<close>. \<open>data\<close> has type \<open>R | null\<close> for an
  unconstrained \<open>R\<close>, so it is a value with \<open>JNull\<close> for "empty"; \<open>error\<close> is
  \<open>string | null\<close>.
\<close>

record request_state =
  data :: jsval
  error :: "jsstring option"
  isLoading :: bool

definition useRequest_initial :: request_state where
  "useRequest_initial = \<lparr>data = JNull, error = None, isLoading = False\<rparr>"

text \<open>
  \<open>setData\<close> is the setter that \<open>useState\<close> returns. Called with a function, it
  takes the function for an updater: the cell gets what the function returns for the
  previous value of the cell. When the updater throws, rendering fails and the component
  is unmounted: no state of the hook results (\<open>None\<close>). Any other argument is stored
  as it is.
\<close>

definition setData :: "closures \<Rightarrow> jsval \<Rightarrow> request_state \<Rightarrow> request_state option" where
  "setData cl action s =
     (case action of
        JFunction f \<Rightarrow> map_option (\<lambda>v. s\<lparr>data := v\<rparr>) (cl f (data s))
      | _ \<Rightarrow> Some (s\<lparr>data := action\<rparr>))"

text \<open>
  The setters of the other two cells are only ever called with a string, \<open>null\<close> or a
  boolean, which they store.
\<close>

definition setError :: "jsstring option \<Rightarrow> request_state \<Rightarrow> request_state" where
  "setError e s = s\<lparr>error := e\<rparr>"

definition setIsLoading :: "bool \<Rightarrow> request_state \<Rightarrow> request_state" where
  "setIsLoading b s = s\<lparr>isLoading := b\<rparr>"

text \<open>The message \<open>'neizvestnaya oshibka'\<close> (Cyrillic in the source), as code units.\<close>

definition unknown_error_message :: jsstring where
  "unknown_error_message =
     [0x43d, 0x435, 0x438, 0x437, 0x432, 0x435, 0x441, 0x442, 0x43d, 0x430, 0x44f, 0x20,
      0x43e, 0x448, 0x438, 0x431, 0x43a, 0x430]"

text \<open>The part of \<open>refetch\<close> that runs before the \<open>await\<close>.\<close>

definition refetch_start :: "closures \<Rightarrow> request_state \<Rightarrow> request_state option" where
  "refetch_start cl s = map_option (setError None) (setData cl JNull (setIsLoading True s))"

text \<open>
  The part of \<open>refetch\<close> that runs once the promise of \<open>fetchCb\<close> has settled:
  \<open>Inr res\<close> when it resolved, \<open>Inl e\<close> when it rejected. The \<open>finally\<close> block runs
  in both cases.
\<close>

definition refetch_settle ::
    "closures \<Rightarrow> jsval + jsval \<Rightarrow> request_state \<Rightarrow> request_state option" where
  "refetch_settle cl outcome s =
     map_option (setIsLoading False)
       (case outcome of
          Inr res \<Rightarrow> setData cl res s
        | Inl e \<Rightarrow>
            (case e of
               JError name msg \<Rightarrow> Some (setError (Some msg) s)
             | _ \<Rightarrow> Some (setError (Some unknown_error_message) s)))"

text \<open>One invocation of \<open>refetch\<close> with nothing else running in between.\<close>

definition refetch :: "closures \<Rightarrow> jsval + jsval \<Rightarrow> request_state \<Rightarrow> request_state option" where
  "refetch cl outcome s =
     (case refetch_start cl s of None \<Rightarrow> None | Some s' \<Rightarrow> refetch_settle cl outcome s')"

definition clear :: "closures \<Rightarrow> request_state \<Rightarrow> request_state option" where
  "clear cl s =
     map_option (setError None) (map_option (setIsLoading False) (setData cl JNull s))"

text \<open>
  Two tables of closures for the examples: one in which every call throws, and one in
  which every function returns \<open>null\<close>, as \<open>() => null\<close> does.
\<close>

definition throwing_closures :: closures where
  "throwing_closures f v = None"

definition null_closures :: closures where
  "null_closures f v = Some JNull"

text \<open>
  The hook over time. Nothing cancels or deduplicates a call of \<open>refetch\<close>, so any
  number of lookups can be in flight; a lookup settles only if one is in flight. A step
  has no result (\<open>None\<close>) when the event cannot happen or when rendering fails.
\<close>

datatype event =
    StartRefetch
  | SettleSuccess jsval
  | SettleFailure jsval
  | Clear

record hook =
  cells :: request_state
  inFlight :: nat

definition hook_initial :: hook where
  "hook_initial = \<lparr>cells = useRequest_initial, inFlight = 0\<rparr>"

fun step :: "closures \<Rightarrow> event \<Rightarrow> hook \<Rightarrow> hook option" where
  "step cl StartRefetch h =
     map_option (\<lambda>s. \<lparr>cells = s, inFlight = Suc (inFlight h)\<rparr>) (refetch_start cl (cells h))"
| "step cl (SettleSuccess res) h =
     (if inFlight h = 0 then None
      else map_option (\<lambda>s. \<lparr>cells = s, inFlight = inFlight h - 1\<rparr>)
             (refetch_settle cl (Inr res) (cells h)))"
| "step cl (SettleFailure e) h =
     (if inFlight h = 0 then None
      else map_option (\<lambda>s. \<lparr>cells = s, inFlight = inFlight h - 1\<rparr>)
             (refetch_settle cl (Inl e) (cells h)))"
| "step cl Clear h = map_option (\<lambda>s. h\<lparr>cells := s\<rparr>) (clear cl (cells h))"

fun run :: "closures \<Rightarrow> event list \<Rightarrow> hook \<Rightarrow> hook option" where
  "run cl [] h = Some h"
| "run cl (ev # evs) h = (case step cl ev h of None \<Rightarrow> None | Some h' \<Rightarrow> run cl evs h')"

text \<open>
  The three states of the specification, read off the operation that came last: idle
  at the start and after \<open>clear\<close>, loading after the start of a \<open>refetch\<close>, settled
  after a lookup has settled.
\<close>

datatype phase = Idle | Loading | Settled

fun phase_after :: "event \<Rightarrow> phase" where
  "phase_after StartRefetch = Loading"
| "phase_after (SettleSuccess res) = Settled"
| "phase_after (SettleFailure e) = Settled"
| "phase_after Clear = Idle"

definition phase_of :: "event list \<Rightarrow> phase" where
  "phase_of evs = (case rev evs of [] \<Rightarrow> Idle | ev # _ \<Rightarrow> phase_after ev)"

text \<open>
  A lookup that settles and stores \<open>null\<close> as the data, when the data was empty
  before: it resolved to \<open>null\<close>, or to a function that returns \<open>null\<close> for
  \<open>null\<close>.
\<close>

fun stores_null :: "closures \<Rightarrow> event \<Rightarrow> bool" where
  "stores_null cl (SettleSuccess res) =
     (case res of JNull \<Rightarrow> True | JFunction f \<Rightarrow> cl f JNull = Some JNull | _ \<Rightarrow> False)"
| "stores_null cl ev = False"

text \<open>
  The last operation is a lookup settling, it is the first lookup to settle since the
  latest start of a \<open>refetch\<close> or \<open>clear\<close> (the operation before it is one of these
  two), and it does not store \<open>null\<close>.
\<close>

definition settles_first :: "closures \<Rightarrow> event list \<Rightarrow> bool" where
  "settles_first cl evs =
     (case rev evs of
        ev # before # _ \<Rightarrow>
          phase_after ev = Settled \<and> phase_after before \<noteq> Settled \<and> \<not> stores_null cl ev
      | _ \<Rightarrow> False)"

text \<open>Both cells absent; exactly one of them present.\<close>

definition empty_cells :: "request_state \<Rightarrow> bool" where
  "empty_cells s \<longleftrightarrow> data s = JNull \<and> error s = None"

definition exactly_one :: "request_state \<Rightarrow> bool" where
  "exactly_one s \<longleftrightarrow> (data s \<noteq> JNull) \<noteq> (error s \<noteq> None)"



section \<open>The form manager\<close>

text \<open>
  A validator of the declared type \<open>UseFormManagerValidator\<close>: it returns \<open>null\<close>
  (\<open>None\<close>) or a message.
\<close>

type_synonym validator = "jsval \<Rightarrow> jsstring option"



text \<open>
  The form state is an object: its own keys in the order in which \<open>Object.keys\<close> lists
  them, each with a value.
\<close>

type_synonym form_state = "(jsstring \<times> jsval) list"







definition get_field :: "form_state \<Rightarrow> jsstring \<Rightarrow> jsval" where
  "get_field state key = (case map_of state key of None \<Rightarrow> JUndefined | Some v \<Rightarrow> v)"

text \<open>
  The order of the keys of an object: array indices first, in ascending order, then the
  other keys in the order of their creation. An array index is the decimal numeral,
  without a leading zero, of a number below \<open>2^32 - 1\<close>.
\<close>

definition isDigit :: "16 word \<Rightarrow> bool" where
  "isDigit c \<longleftrightarrow> 0x30 \<le> c \<and> c \<le> 0x39"

definition digits_value :: "jsstring \<Rightarrow> nat" where
  "digits_value key = foldl (\<lambda>n c. 10 * n + (unat c - 48)) 0 key"

definition array_index :: "jsstring \<Rightarrow> nat option" where
  "array_index key =
     (if key \<noteq> [] \<and> list_all isDigit key \<and> (hd key \<noteq> 0x30 \<or> length key = 1) \<and>
         digits_value key < 4294967295
      then Some (digits_value key) else None)"

fun replace_field :: "form_state \<Rightarrow> jsstring \<Rightarrow> jsval \<Rightarrow> form_state" where
  "replace_field [] fieldName v = []"
| "replace_field ((key, w) # rest) fieldName v =
     (if key = fieldName then (key, v) # rest else (key, w) # replace_field rest fieldName v)"

fun insert_index :: "nat \<Rightarrow> jsstring \<times> jsval \<Rightarrow> form_state \<Rightarrow> form_state" where
  "insert_index n entry [] = [entry]"
| "insert_index n entry ((key, w) # rest) =
     (case array_index key of
        None \<Rightarrow> entry # (key, w) # rest
      | Some m \<Rightarrow> if m < n then (key, w) # insert_index n entry rest else entry # (key, w) # rest)"

text \<open>
  \<open>{ ...prev, [fieldName]: v }\<close>: an existing key keeps its place; a new key goes where
  the order of keys puts it.
\<close>

definition set_field :: "form_state \<Rightarrow> jsstring \<Rightarrow> jsval \<Rightarrow> form_state" where
  "set_field state fieldName v =
     (if fieldName \<in> set (map fst state) then replace_field state fieldName v
      else (case array_index fieldName of
              None \<Rightarrow> state @ [(fieldName, v)]
            | Some n \<Rightarrow> insert_index n (fieldName, v) state))"











text \<open>What a handler does to the outside, in order.\<close>

datatype effect =
    PreventDefault
  | OnSubmit form_state
  | OnFormStateChange


text \<open>
  The \<open>onChange\<close> of \<open>getFieldProps fieldName\<close>, for an event whose \<open>target.value\<close> is
  \<open>v\<close>: the effects, and the state after the update.
\<close>

definition onChange :: "jsstring \<Rightarrow> jsstring \<Rightarrow> form_state \<Rightarrow> effect list \<times> form_state" where
  "onChange fieldName v prev =
     ([OnFormStateChange], set_field prev fieldName (JString (trim v)))"


section \<open>The search forms\<close>

text \<open>
  The two messages of the validator (Cyrillic in the source), as code units:
  "the value entered is not text" and "the value entered must not be empty".
\<close>

definition not_text_message :: jsstring where
  "not_text_message =
     [0x412, 0x432, 0x435, 0x434, 0x435, 0x43d, 0x43d, 0x43e, 0x435, 0x20, 0x437, 0x43d,
      0x430, 0x447, 0x435, 0x43d, 0x438, 0x435, 0x20, 0x43d, 0x435, 0x20, 0x442, 0x435,
      0x43a, 0x441, 0x442]"

definition empty_message :: jsstring where
  "empty_message =
     [0x412, 0x432, 0x435, 0x434, 0x435, 0x43d, 0x43d, 0x43e, 0x435, 0x20, 0x437, 0x43d,
      0x430, 0x447, 0x435, 0x43d, 0x438, 0x435, 0x20, 0x43d, 0x435, 0x20, 0x434, 0x43e,
      0x43b, 0x436, 0x43d, 0x43e, 0x20, 0x431, 0x44b, 0x442, 0x44c, 0x20, 0x43f, 0x443,
      0x441, 0x442, 0x44b, 0x43c]"

fun searchValueValidator :: validator where
  "searchValueValidator (JString s) = (if trim s = [] then Some empty_message else None)"
| "searchValueValidator v = Some not_text_message"

definition searchValue :: jsstring where
  "searchValue = ascii ''searchValue''"

definition search_initialState :: form_state where
  "search_initialState = [(searchValue, JString [])]"


text \<open>The field of the form after a sequence of change events on its only input.\<close>

fun changes :: "jsstring list \<Rightarrow> form_state \<Rightarrow> form_state" where
  "changes [] state = state"
| "changes (v # vs) state = changes vs (snd (onChange searchValue v state))"

text \<open>The stored search value is a string that trimming leaves unchanged.\<close>

definition trimmed_field :: "form_state \<Rightarrow> bool" where
  "trimmed_field state \<longleftrightarrow> (\<exists>s. get_field state searchValue = JString s \<and> trim s = s)"


section \<open>Trimming\<close>

lemma trim_eq_Nil_iff: "trim s = [] \<longleftrightarrow> (\<forall>c\<in>set s. isWhiteSpace c)"
proof
  assume "\<forall>c\<in>set s. isWhiteSpace c"
  then show "trim s = []" by (auto simp: trim_def dest: set_dropWhileD)
next
  assume "trim s = []"
  then have all: "\<forall>c\<in>set (dropWhile isWhiteSpace s). isWhiteSpace c"
    by (simp add: trim_def)
  have "dropWhile isWhiteSpace s = []"
  proof (rule ccontr)
    assume ne: "dropWhile isWhiteSpace s \<noteq> []"
    then have "\<not> isWhiteSpace (hd (dropWhile isWhiteSpace s))" by (rule hd_dropWhile)
    moreover have "hd (dropWhile isWhiteSpace s) \<in> set (dropWhile isWhiteSpace s)"
      using ne by (rule hd_in_set)
    ultimately show False using all by blast
  qed
  then show "\<forall>c\<in>set s. isWhiteSpace c" by simp
qed

lemma dropWhile_fixed: "xs = [] \<or> \<not> P (hd xs) \<Longrightarrow> dropWhile P xs = xs"
  by (cases xs) auto

lemma trim_no_leading: "trim s = [] \<or> \<not> isWhiteSpace (hd (trim s))"
proof (cases "trim s = []")
  case True
  then show ?thesis by simp
next
  case False
  define t where "t = dropWhile isWhiteSpace s"
  define u where "u = dropWhile isWhiteSpace (rev t)"
  have ts: "trim s = rev u" by (simp add: trim_def t_def u_def)
  with False have u: "u \<noteq> []" by simp
  then have "\<not> isWhiteSpace (hd u)" unfolding u_def by (rule hd_dropWhile)
  then obtain x where x: "x \<in> set (rev t)" "\<not> isWhiteSpace x"
    using u unfolding u_def by (metis hd_in_set set_dropWhileD)
  then have "last u = last (rev t)" unfolding u_def by (simp add: dropWhile_last)
  moreover have "t \<noteq> []" using x by auto
  ultimately have "hd (rev u) = hd t" using u by (simp add: hd_rev last_rev)
  moreover have "\<not> isWhiteSpace (hd t)" using \<open>t \<noteq> []\<close> unfolding t_def by (rule hd_dropWhile)
  ultimately show ?thesis using ts by simp
qed

lemma trim_no_trailing: "trim s = [] \<or> \<not> isWhiteSpace (last (trim s))"
proof (cases "trim s = []")
  case True
  then show ?thesis by simp
next
  case False
  then have "dropWhile isWhiteSpace (rev (dropWhile isWhiteSpace s)) \<noteq> []"
    by (simp add: trim_def)
  then have "\<not> isWhiteSpace (hd (dropWhile isWhiteSpace (rev (dropWhile isWhiteSpace s))))"
    by (rule hd_dropWhile)
  then show ?thesis using False by (simp add: trim_def last_rev)
qed

lemma trim_fixed:
  assumes "s = [] \<or> (\<not> isWhiteSpace (hd s) \<and> \<not> isWhiteSpace (last s))"
  shows "trim s = s"
proof (cases "s = []")
  case True
  then show ?thesis by (simp add: trim_def)
next
  case False
  with assms have h: "\<not> isWhiteSpace (hd s)" and l: "\<not> isWhiteSpace (last s)" by auto
  from h False have "dropWhile isWhiteSpace s = s" by (simp add: dropWhile_fixed)
  moreover from l False have "dropWhile isWhiteSpace (rev s) = rev s"
    by (simp add: dropWhile_fixed hd_rev)
  ultimately show ?thesis by (simp add: trim_def)
qed

lemma trim_idem: "trim (trim s) = trim s"
  using trim_no_leading [of s] trim_no_trailing [of s] by (auto intro: trim_fixed)


section \<open>The validator of the search field\<close>

text \<open>
  C4. For every string whose trimmed form is not empty, \<open>searchValueValidator\<close>
  returns no error (\<open>null\<close>); for the empty string and for every string made of white
  space only, it returns an error message (the message is the "must not be empty" one).
\<close>

theorem searchValueValidator_on_strings:
  "(trim s \<noteq> [] \<longrightarrow> searchValueValidator (JString s) = None) \<and>
   ((\<forall>c\<in>set s. isWhiteSpace c) \<longrightarrow> searchValueValidator (JString s) = Some empty_message) \<and>
   searchValueValidator (JString []) = Some empty_message"
  by (simp add: trim_eq_Nil_iff)

theorem searchValueValidator_on_strings_witness:
  "trim (ascii '' octocat'') \<noteq> [] \<and>
   searchValueValidator (JString (ascii '' octocat'')) = None \<and>
   isWhiteSpace 0x20 \<and> isWhiteSpace 0x09 \<and> isWhiteSpace 0x3000 \<and>
   searchValueValidator (JString [0x20, 0x09, 0x3000]) = Some empty_message"
proof -
  have a: "trim (ascii '' octocat'') \<noteq> []"
    by (simp add: trim_def ascii_def isWhiteSpace_def)
  have b: "isWhiteSpace 0x20 \<and> isWhiteSpace 0x09 \<and> isWhiteSpace 0x3000"
    by (simp add: isWhiteSpace_def)
  then have c: "\<forall>c\<in>set [0x20, 0x09, 0x3000]. isWhiteSpace c"
    by simp
  from a b c searchValueValidator_on_strings [of "ascii '' octocat''"]
    searchValueValidator_on_strings [of "[0x20, 0x09, 0x3000]"]
  show ?thesis by blast
qed

text \<open>
  C9. For every value that is not a string, \<open>searchValueValidator\<close> returns the error
  message "the value entered is not text": the validator is defined on every value and
  never accepts one that is not a string.
\<close>

theorem searchValueValidator_on_non_strings:
  "(\<forall>s. v \<noteq> JString s) \<Longrightarrow> searchValueValidator v = Some not_text_message"
  by (cases v) simp_all

theorem searchValueValidator_on_non_strings_witness:
  "(\<forall>s. JNumber 42 \<noteq> JString s) \<and> searchValueValidator (JNumber 42) = Some not_text_message"
  using searchValueValidator_on_non_strings [of "JNumber 42"] by simp


section \<open>The form manager: submit and change\<close>












text \<open>The object after \<open>{ ...prev, [fieldName]: v }\<close>, read as a map.\<close>

lemma map_of_replace_field:
  "fieldName \<in> set (map fst state) \<Longrightarrow>
     map_of (replace_field state fieldName v) = (map_of state)(fieldName \<mapsto> v)"
proof (induction state)
  case Nil
  then show ?case by simp
next
  case (Cons entry state)
  obtain key w where e: "entry = (key, w)" by (cases entry)
  show ?case
  proof (cases "key = fieldName")
    case True
    with e show ?thesis by (auto simp: fun_eq_iff)
  next
    case False
    with e Cons.prems have "fieldName \<in> set (map fst state)" by auto
    with Cons.IH have "map_of (replace_field state fieldName v) = (map_of state)(fieldName \<mapsto> v)" .
    with e False show ?thesis by (auto simp: fun_eq_iff)
  qed
qed

lemma map_of_insert_index:
  "k \<notin> set (map fst state) \<Longrightarrow>
     map_of (insert_index n (k, v) state) = (map_of state)(k \<mapsto> v)"
proof (induction state)
  case Nil
  show ?case by simp
next
  case (Cons entry state)
  obtain key w where e: "entry = (key, w)" by (cases entry)
  with Cons.prems have ne: "key \<noteq> k" and nk: "k \<notin> set (map fst state)" by auto
  note ih = Cons.IH [OF nk]
  show ?case
  proof (cases "array_index key")
    case None
    with e show ?thesis by (simp add: fun_eq_iff)
  next
    case (Some m)
    with e ne ih show ?thesis by (simp add: fun_eq_iff)
  qed
qed

lemma map_of_append_new:
  "k \<notin> set (map fst state) \<Longrightarrow> map_of (state @ [(k, v)]) = (map_of state)(k \<mapsto> v)"
  by (induction state) (auto simp: fun_eq_iff)

lemma map_of_set_field: "map_of (set_field state k v) = (map_of state)(k \<mapsto> v)"
  by (simp add: set_field_def map_of_replace_field map_of_insert_index map_of_append_new
      del: map_of_append split: option.splits)

text \<open>
  C8. For every change event delivered to a field bound through \<open>getFieldProps\<close>, the
  form manager stores the value of the event, trimmed of surrounding white space, into
  the state of that field (and leaves the other fields as they were), and invokes the
  change-notification callback.
\<close>

theorem onChange_trims_and_notifies:
  "fst (onChange fieldName v prev) = [OnFormStateChange] \<and>
   get_field (snd (onChange fieldName v prev)) fieldName = JString (trim v) \<and>
   map_of (snd (onChange fieldName v prev)) = (map_of prev)(fieldName \<mapsto> JString (trim v))"
  by (simp add: onChange_def get_field_def map_of_set_field)

theorem onChange_trims_and_notifies_witness:
  "fst (onChange searchValue (ascii ''  octo cat '') search_initialState) = [OnFormStateChange] \<and>
   get_field (snd (onChange searchValue (ascii ''  octo cat '') search_initialState)) searchValue =
     JString (ascii ''octo cat'')"
proof -
  have "trim (ascii ''  octo cat '') = ascii ''octo cat''"
    by (simp add: trim_def ascii_def isWhiteSpace_def)
  with onChange_trims_and_notifies [of searchValue "ascii ''  octo cat ''" search_initialState]
  show ?thesis by simp
qed

lemma trimmed_field_onChange: "trimmed_field (snd (onChange searchValue v state))"
  by (simp add: trimmed_field_def onChange_def get_field_def map_of_set_field trim_idem)

lemma trimmed_field_changes: "trimmed_field state \<Longrightarrow> trimmed_field (changes vs state)"
  by (induction vs arbitrary: state) (simp_all add: trimmed_field_onChange)

lemma trimmed_field_initial: "trimmed_field search_initialState"
  by (simp add: trimmed_field_def search_initialState_def get_field_def trim_def)

text \<open>
  C10. Starting from the initial form state of the screens, \<open>{ searchValue: '' }\<close>,
  after every sequence of field changes through \<open>getFieldProps\<close> the stored
  \<open>searchValue\<close> is a string equal to its own trim: it never has leading or trailing
  white space.
\<close>

theorem searchValue_stays_trimmed:
  "\<exists>s. get_field (changes vs search_initialState) searchValue = JString s \<and> trim s = s"
  using trimmed_field_changes [OF trimmed_field_initial, of vs] by (simp add: trimmed_field_def)

theorem searchValue_stays_trimmed_witness:
  "get_field (changes [ascii '' ab'', ascii '' octocat  ''] search_initialState) searchValue =
     JString (ascii ''octocat'') \<and>
   trim (ascii ''octocat'') = ascii ''octocat''"
proof -
  let ?vs = "[ascii '' ab'', ascii '' octocat  '']"
  have e: "get_field (changes ?vs search_initialState) searchValue = JString (ascii ''octocat'')"
    by (simp add: onChange_def search_initialState_def get_field_def map_of_set_field trim_def
        ascii_def isWhiteSpace_def)
  from searchValue_stays_trimmed [of ?vs] obtain s
    where "get_field (changes ?vs search_initialState) searchValue = JString s" and t: "trim s = s"
    by blast
  with e have "s = ascii ''octocat''" by simp
  with t e show ?thesis by simp
qed



section \<open>The HTTP access layer: the error of a failed response\<close>

text \<open>
  C5. For every call of \<open>requestExecutor\<close> whose response body parses as JSON of the
  shape \<open>{ message: string }\<close>: if the response is not in the success range, the
  executor raises an \<open>Error\<close> whose message is the \<open>message\<close> field of the server,
  unchanged; otherwise it returns the parsed body.
\<close>

theorem requestExecutor_message_shape:
  assumes "json r = Inr (JObject props)"
    and "map_of props (ascii ''message'') = Some (JString m)"
  shows "requestExecutor eng (Inr r) =
     (if ok r then Inr (JObject props) else Inl (JError (ascii ''Error'') m))"
  using assms by (simp add: requestExecutor_def)

theorem requestExecutor_message_shape_witness:
  "requestExecutor \<lparr>nullishAccessMessage = (\<lambda>v. []), toString = (\<lambda>v. [])\<rparr>
     (Inr \<lparr>ok = False, json = Inr (JObject [(ascii ''message'', JString (ascii ''Not Found''))])\<rparr>) =
     Inl (JError (ascii ''Error'') (ascii ''Not Found'')) \<and>
   requestExecutor \<lparr>nullishAccessMessage = (\<lambda>v. []), toString = (\<lambda>v. [])\<rparr>
     (Inr \<lparr>ok = True, json = Inr (JObject [(ascii ''message'', JString (ascii ''Not Found''))])\<rparr>) =
     Inr (JObject [(ascii ''message'', JString (ascii ''Not Found''))])"
  using
    requestExecutor_message_shape
      [of "\<lparr>ok = False, json = Inr (JObject [(ascii ''message'', JString (ascii ''Not Found''))])\<rparr>"
        "[(ascii ''message'', JString (ascii ''Not Found''))]" "ascii ''Not Found''"
        "\<lparr>nullishAccessMessage = (\<lambda>v. []), toString = (\<lambda>v. [])\<rparr>"]
    requestExecutor_message_shape
      [of "\<lparr>ok = True, json = Inr (JObject [(ascii ''message'', JString (ascii ''Not Found''))])\<rparr>"
        "[(ascii ''message'', JString (ascii ''Not Found''))]" "ascii ''Not Found''"
        "\<lparr>nullishAccessMessage = (\<lambda>v. []), toString = (\<lambda>v. [])\<rparr>"]
  by simp



section \<open>The request hook: one invocation\<close>

lemmas cell_setters = setData_def setError_def setIsLoading_def

lemmas hook_defs = hook_initial_def useRequest_initial_def refetch_start_def refetch_settle_def
  clear_def setData_def setError_def setIsLoading_def

text \<open>
  C7. From every prior state of the request hook (idle, loading, settled with data or
  with an error), \<open>clear()\<close> leaves \<open>data\<close> empty, \<open>error\<close> empty and \<open>isLoading\<close>
  false.
\<close>

theorem clear_resets: "clear cl s = Some \<lparr>data = JNull, error = None, isLoading = False\<rparr>"
  by (simp add: clear_def cell_setters)

theorem clear_resets_witness:
  "clear null_closures \<lparr>data = JNumber 3, error = Some (ascii ''Not Found''), isLoading = True\<rparr> =
     Some \<lparr>data = JNull, error = None, isLoading = False\<rparr>"
  using clear_resets
    [of null_closures "\<lparr>data = JNumber 3, error = Some (ascii ''Not Found''), isLoading = True\<rparr>"]
  by simp

text \<open>
  C6. For every rejection of the lookup promise inside \<open>refetch\<close> whose value is not an
  instance of \<open>Error\<close>, the stored error is the generic message
  \<open>unknown_error_message\<close>; for an instance of \<open>Error\<close> it is the message of that
  \<open>Error\<close>. This holds from every state in which the rejection arrives, and so for a
  whole invocation of \<open>refetch\<close> as well.
\<close>

theorem refetch_rejection_message:
  "((\<forall>name msg. e \<noteq> JError name msg) \<longrightarrow>
      map_option error (refetch_settle cl (Inl e) s) = Some (Some unknown_error_message) \<and>
      map_option error (refetch cl (Inl e) s) = Some (Some unknown_error_message)) \<and>
   map_option error (refetch_settle cl (Inl (JError name msg)) s) = Some (Some msg) \<and>
   map_option error (refetch cl (Inl (JError name msg)) s) = Some (Some msg)"
  by (cases e) (simp_all add: refetch_def refetch_start_def refetch_settle_def cell_setters)

theorem refetch_rejection_message_witness:
  "(\<forall>name msg. JString (ascii ''boom'') \<noteq> JError name msg) \<and>
   map_option error (refetch null_closures (Inl (JString (ascii ''boom''))) useRequest_initial) =
     Some (Some unknown_error_message)"
  using refetch_rejection_message [of "JString (ascii ''boom'')" null_closures useRequest_initial]
  by simp

lemma refetch_start_eq:
  "refetch_start cl s = Some \<lparr>data = JNull, error = None, isLoading = True\<rparr>"
  by (simp add: refetch_start_def cell_setters)

lemma clear_eq: "clear cl s = Some \<lparr>data = JNull, error = None, isLoading = False\<rparr>"
  by (simp add: clear_def cell_setters)

lemma setData_value:
  "\<forall>f. action \<noteq> JFunction f \<Longrightarrow> setData cl action s = Some (s\<lparr>data := action\<rparr>)"
  by (cases action) (simp_all add: setData_def)

lemma setData_updater:
  "setData cl (JFunction f) s = map_option (\<lambda>v. s\<lparr>data := v\<rparr>) (cl f (data s))"
  by (simp add: setData_def)

text \<open>
  C1, as the code has it. For every single invocation of \<open>refetch\<close> with nothing running
  in between: if the lookup resolves to a value that is neither \<open>null\<close> nor a function,
  \<open>data\<close> is non-empty (the resolved value) and \<open>error\<close> is empty; if the lookup
  rejects, \<open>error\<close> is non-empty and \<open>data\<close> is empty; \<open>isLoading\<close> is false in both
  cases. A lookup that resolves to \<open>null\<close> leaves \<open>data\<close> empty. A lookup that resolves
  to a function leaves in \<open>data\<close> what the function, called as an updater, returns for
  \<open>null\<close>, and leaves no state when the function throws. "Empty" is \<open>null\<close>, as the
  screens test it.
\<close>

theorem refetch_terminal_state:
  "(res \<noteq> JNull \<and> (\<forall>f. res \<noteq> JFunction f) \<longrightarrow>
      (\<exists>st. refetch cl (Inr res) s = Some st \<and>
         data st = res \<and> data st \<noteq> JNull \<and> error st = None \<and> \<not> isLoading st)) \<and>
   (\<exists>st. refetch cl (Inl e) s = Some st \<and>
      data st = JNull \<and> error st \<noteq> None \<and> \<not> isLoading st) \<and>
   refetch cl (Inr JNull) s = Some \<lparr>data = JNull, error = None, isLoading = False\<rparr> \<and>
   refetch cl (Inr (JFunction f)) s =
     map_option (\<lambda>v. \<lparr>data = v, error = None, isLoading = False\<rparr>) (cl f JNull)"
proof (intro conjI impI)
  assume "res \<noteq> JNull \<and> (\<forall>f. res \<noteq> JFunction f)"
  then show "\<exists>st. refetch cl (Inr res) s = Some st \<and>
         data st = res \<and> data st \<noteq> JNull \<and> error st = None \<and> \<not> isLoading st"
    by (simp add: refetch_def refetch_start_eq refetch_settle_def setData_value setIsLoading_def)
next
  show "\<exists>st. refetch cl (Inl e) s = Some st \<and>
      data st = JNull \<and> error st \<noteq> None \<and> \<not> isLoading st"
    by (cases e)
      (simp_all add: refetch_def refetch_start_eq refetch_settle_def setError_def setIsLoading_def)
next
  show "refetch cl (Inr JNull) s = Some \<lparr>data = JNull, error = None, isLoading = False\<rparr>"
    by (simp add: refetch_def refetch_start_eq refetch_settle_def cell_setters)
next
  show "refetch cl (Inr (JFunction f)) s =
     map_option (\<lambda>v. \<lparr>data = v, error = None, isLoading = False\<rparr>) (cl f JNull)"
    by (cases "cl f JNull")
      (simp_all add: refetch_def refetch_start_eq refetch_settle_def cell_setters)
qed

theorem refetch_terminal_state_witness:
  "JNumber 7 \<noteq> JNull \<and>
   refetch throwing_closures (Inr (JNumber 7)) useRequest_initial =
     Some \<lparr>data = JNumber 7, error = None, isLoading = False\<rparr>"
proof -
  have a: "JNumber 7 \<noteq> JNull \<and> (\<forall>f. JNumber 7 \<noteq> JFunction f)" by simp
  with refetch_terminal_state [of "JNumber 7" throwing_closures useRequest_initial]
  obtain st where "refetch throwing_closures (Inr (JNumber 7)) useRequest_initial = Some st"
    and "data st = JNumber 7" and "error st = None" and "\<not> isLoading st"
    by blast
  then show ?thesis by (cases st) simp
qed

text \<open>
  C1 as stated fails when the lookup resolves to \<open>null\<close>, and when it resolves to a
  function that returns \<open>null\<close>: the fetch has succeeded and \<open>data\<close> is empty.
\<close>

theorem refetch_null_counterexample:
  "refetch null_closures (Inr JNull) useRequest_initial =
     Some \<lparr>data = JNull, error = None, isLoading = False\<rparr> \<and>
   refetch null_closures (Inr (JFunction 0)) useRequest_initial =
     Some \<lparr>data = JNull, error = None, isLoading = False\<rparr>"
  by (simp add: refetch_def hook_defs null_closures_def)


section \<open>The request hook over sequences of operations\<close>

lemma run_append:
  "run cl (evs @ evs') h = (case run cl evs h of None \<Rightarrow> None | Some h' \<Rightarrow> run cl evs' h')"
  by (induction evs arbitrary: h) (auto split: option.splits)

lemma phase_of_snoc: "phase_of (evs @ [ev]) = phase_after ev"
  by (simp add: phase_of_def)

lemma refetch_settle_not_loading:
  "refetch_settle cl outcome s = Some s' \<Longrightarrow> \<not> isLoading s'"
  by (auto simp: refetch_settle_def setIsLoading_def)

lemma step_loading_empty:
  assumes "step cl ev h = Some h'"
    and "isLoading (cells h) \<longrightarrow> empty_cells (cells h)"
  shows "isLoading (cells h') \<longrightarrow> empty_cells (cells h')"
proof (cases ev)
  case StartRefetch
  with assms(1) show ?thesis by (auto simp: refetch_start_eq empty_cells_def)
next
  case (SettleSuccess res)
  with assms(1) show ?thesis by (auto split: if_splits dest: refetch_settle_not_loading)
next
  case (SettleFailure e)
  with assms(1) show ?thesis by (auto split: if_splits dest: refetch_settle_not_loading)
next
  case Clear
  with assms(1) show ?thesis by (auto simp: clear_eq empty_cells_def)
qed

lemma run_loading_empty:
  assumes "run cl evs h = Some h'"
    and "isLoading (cells h) \<longrightarrow> empty_cells (cells h)"
  shows "isLoading (cells h') \<longrightarrow> empty_cells (cells h')"
  using assms
proof (induction evs arbitrary: h)
  case Nil
  then show ?case by simp
next
  case (Cons ev evs)
  then obtain h1 where s: "step cl ev h = Some h1" and r: "run cl evs h1 = Some h'"
    by (auto split: option.splits)
  from step_loading_empty [OF s Cons.prems(2)] Cons.IH [OF r] show ?case by blast
qed

lemma step_unsettled_empty:
  assumes "step cl ev h = Some h'" and "phase_after ev \<noteq> Settled"
  shows "empty_cells (cells h')"
  using assms by (cases ev) (auto simp: refetch_start_eq clear_eq empty_cells_def)

lemma run_unsettled_empty:
  assumes "run cl evs hook_initial = Some h" and "phase_of evs \<noteq> Settled"
  shows "empty_cells (cells h)"
proof (cases evs rule: rev_cases)
  case Nil
  with assms show ?thesis
    by (auto simp: hook_initial_def useRequest_initial_def empty_cells_def)
next
  case (snoc evs' ev)
  with assms(1) obtain h1 where s: "step cl ev h1 = Some h"
    by (auto simp: run_append split: option.splits)
  from assms(2) snoc have "phase_after ev \<noteq> Settled" by (simp add: phase_of_snoc)
  with s show ?thesis by (rule step_unsettled_empty)
qed

lemma step_settles_exactly_one:
  assumes "step cl ev h = Some h'" and "empty_cells (cells h)"
    and "phase_after ev = Settled" and "\<not> stores_null cl ev"
  shows "exactly_one (cells h')"
proof (cases ev)
  case (SettleSuccess res)
  from assms(2) have e: "data (cells h) = JNull" "error (cells h) = None"
    by (simp_all add: empty_cells_def)
  from SettleSuccess assms(1) obtain s' where
    s': "refetch_settle cl (Inr res) (cells h) = Some s'" and h': "cells h' = s'"
    by (auto split: if_splits)
  show ?thesis
  proof (cases "\<exists>f. res = JFunction f")
    case True
    then obtain f where f: "res = JFunction f" ..
    with s' e obtain v where v: "cl f JNull = Some v" and "s' = (cells h)\<lparr>data := v, isLoading := False\<rparr>"
      by (auto simp: refetch_settle_def cell_setters)
    moreover from v f assms(4) SettleSuccess have "v \<noteq> JNull" by auto
    ultimately show ?thesis using e h' by (simp add: exactly_one_def)
  next
    case False
    then have "setData cl res (cells h) = Some ((cells h)\<lparr>data := res\<rparr>)"
      by (simp add: setData_value)
    with s' have "s' = (cells h)\<lparr>data := res, isLoading := False\<rparr>"
      by (auto simp: refetch_settle_def setIsLoading_def)
    moreover from False assms(4) SettleSuccess have "res \<noteq> JNull"
      by (cases res) auto
    ultimately show ?thesis using e h' by (simp add: exactly_one_def)
  qed
next
  case (SettleFailure x)
  from assms(2) have e: "data (cells h) = JNull" "error (cells h) = None"
    by (simp_all add: empty_cells_def)
  from SettleFailure assms(1) obtain s' where
    s': "refetch_settle cl (Inl x) (cells h) = Some s'" and h': "cells h' = s'"
    by (auto split: if_splits)
  from s' e have "data s' = JNull \<and> error s' \<noteq> None"
    by (cases x) (auto simp: refetch_settle_def cell_setters)
  with h' show ?thesis by (simp add: exactly_one_def)
qed (use assms(3) in simp_all)

lemma settles_first_decompose:
  assumes "settles_first cl evs"
  obtains evs' before ev where "evs = evs' @ [before, ev]"
    and "phase_after ev = Settled" and "phase_after before \<noteq> Settled" and "\<not> stores_null cl ev"
proof -
  from assms obtain ev before rest where r: "rev evs = ev # before # rest"
    and p: "phase_after ev = Settled \<and> phase_after before \<noteq> Settled \<and> \<not> stores_null cl ev"
    by (auto simp: settles_first_def split: list.splits)
  from r have "rev (rev evs) = rev (ev # before # rest)" by simp
  then have "evs = rev rest @ [before, ev]" by simp
  with p that show ?thesis by blast
qed

text \<open>
  C2, as the code has it. For every state reached from the initial state of the hook by
  a sequence of its operations (start refetch, settle with success, settle with failure,
  clear): while the hook is idle or loading, and whenever \<open>isLoading\<close> is set, both
  \<open>data\<close> and \<open>error\<close> are absent; once a request has settled, exactly one of them is
  present, provided that this lookup is the first to settle since the latest start of a
  \<open>refetch\<close> or \<open>clear\<close>, and that it did not store \<open>null\<close> as the data (it did not
  resolve to \<open>null\<close>, nor to a function that returns \<open>null\<close>).
\<close>

theorem request_state_invariant:
  assumes "run cl evs hook_initial = Some h"
  shows "(phase_of evs \<noteq> Settled \<longrightarrow> data (cells h) = JNull \<and> error (cells h) = None) \<and>
    (isLoading (cells h) \<longrightarrow> data (cells h) = JNull \<and> error (cells h) = None) \<and>
    (settles_first cl evs \<longrightarrow> (data (cells h) \<noteq> JNull) \<noteq> (error (cells h) \<noteq> None))"
proof (intro conjI impI)
  assume "phase_of evs \<noteq> Settled"
  with assms have "empty_cells (cells h)" by (rule run_unsettled_empty)
  then show "data (cells h) = JNull" and "error (cells h) = None"
    by (simp_all add: empty_cells_def)
next
  assume l: "isLoading (cells h)"
  have "isLoading (cells hook_initial) \<longrightarrow> empty_cells (cells hook_initial)"
    by (simp add: hook_initial_def useRequest_initial_def)
  with assms have "isLoading (cells h) \<longrightarrow> empty_cells (cells h)" by (rule run_loading_empty)
  with l show "data (cells h) = JNull" and "error (cells h) = None"
    by (simp_all add: empty_cells_def)
next
  assume "settles_first cl evs"
  then obtain evs' before ev where evs: "evs = evs' @ [before, ev]"
    and ev: "phase_after ev = Settled" "\<not> stores_null cl ev"
    and before: "phase_after before \<noteq> Settled"
    by (rule settles_first_decompose)
  from assms evs obtain h0 h1 where "step cl before h0 = Some h1" and s: "step cl ev h1 = Some h"
    by (auto simp: run_append split: option.splits)
  with before have "empty_cells (cells h1)" by (simp add: step_unsettled_empty)
  with s ev have "exactly_one (cells h)" by (simp add: step_settles_exactly_one)
  then show "(data (cells h) \<noteq> JNull) \<noteq> (error (cells h) \<noteq> None)"
    by (simp add: exactly_one_def)
qed

theorem request_state_invariant_witness:
  "run throwing_closures
     [StartRefetch, Clear, SettleFailure (JError (ascii ''Error'') (ascii ''Not Found''))]
     hook_initial =
     Some \<lparr>cells = \<lparr>data = JNull, error = Some (ascii ''Not Found''), isLoading = False\<rparr>,
           inFlight = 0\<rparr> \<and>
   settles_first throwing_closures
     [StartRefetch, Clear, SettleFailure (JError (ascii ''Error'') (ascii ''Not Found''))] \<and>
   ((JNull \<noteq> JNull) \<noteq> (Some (ascii ''Not Found'') \<noteq> None))"
proof -
  let ?evs = "[StartRefetch, Clear, SettleFailure (JError (ascii ''Error'') (ascii ''Not Found''))]"
  let ?h = "\<lparr>cells = \<lparr>data = JNull, error = Some (ascii ''Not Found''), isLoading = False\<rparr>,
             inFlight = 0\<rparr>"
  have r: "run throwing_closures ?evs hook_initial = Some ?h"
    by (simp add: hook_defs)
  have p: "settles_first throwing_closures ?evs"
    by (simp add: settles_first_def)
  from request_state_invariant [OF r] p
  have "(data (cells ?h) \<noteq> JNull) \<noteq> (error (cells ?h) \<noteq> None)"
    by blast
  with r p show ?thesis by simp
qed

text \<open>
  C2 as stated fails in three ways. Two overlapping calls of \<open>refetch\<close>, the first
  resolving and the second rejecting, leave both \<open>data\<close> and \<open>error\<close> present after
  the last lookup has settled; a lookup that resolves to \<open>null\<close>, or to a function that
  returns \<open>null\<close>, leaves both absent after it has settled.
\<close>

theorem request_state_invariant_counterexample:
  "run null_closures
     [StartRefetch, StartRefetch, SettleSuccess (JNumber 1), SettleFailure JUndefined]
     hook_initial =
     Some \<lparr>cells = \<lparr>data = JNumber 1, error = Some unknown_error_message, isLoading = False\<rparr>,
           inFlight = 0\<rparr> \<and>
   phase_of [StartRefetch, StartRefetch, SettleSuccess (JNumber 1), SettleFailure JUndefined] =
     Settled \<and>
   run null_closures [StartRefetch, SettleSuccess JNull] hook_initial =
     Some \<lparr>cells = \<lparr>data = JNull, error = None, isLoading = False\<rparr>, inFlight = 0\<rparr> \<and>
   phase_of [StartRefetch, SettleSuccess JNull] = Settled \<and>
   run null_closures [StartRefetch, SettleSuccess (JFunction 0)] hook_initial =
     Some \<lparr>cells = \<lparr>data = JNull, error = None, isLoading = False\<rparr>, inFlight = 0\<rparr> \<and>
   phase_of [StartRefetch, SettleSuccess (JFunction 0)] = Settled"
  by (simp add: hook_defs phase_of_def null_closures_def)


end
